theory Spec2Isabelle
  imports Main
begin

section \<open>Column header cleaning (pipeline.py, lines 44-51)\<close>

text \<open>
  A header is a Python \<open>str\<close>. It is modelled as a \<open>string\<close> whose characters are read as
  code points 0..255, so that \<open>length\<close> counts what Python counts on such text. On this range
  \<open>str.strip()\<close> removes the code points 9-13, 28-32, 133 and 160, and \<open>str.lower()\<close> moves
  A-Z and the capital letters 192-222 (215, the multiplication sign, apart) up by 32.
\<close>

definition isspace :: "char \<Rightarrow> bool" where
  "isspace c =
     (let n = (of_char c :: nat)
      in (9 \<le> n \<and> n \<le> 13) \<or> (28 \<le> n \<and> n \<le> 32) \<or> n = 133 \<or> n = 160)"

definition lower_chr :: "char \<Rightarrow> char" where
  "lower_chr c =
     (let n = (of_char c :: nat)
      in if (65 \<le> n \<and> n \<le> 90) \<or> (192 \<le> n \<and> n \<le> 222 \<and> n \<noteq> 215)
         then char_of (n + 32) else c)"

definition strip :: "string \<Rightarrow> string" where
  "strip s = rev (dropWhile isspace (rev (dropWhile isspace s)))"

definition lower :: "string \<Rightarrow> string" where
  "lower s = map lower_chr s"

text \<open>
  \<open>str.replace(old, new)\<close> for a pattern of one character, which is all the script uses:
  every occurrence is replaced, left to right.
\<close>

definition str_replace :: "char \<Rightarrow> string \<Rightarrow> string \<Rightarrow> string" where
  "str_replace old new s = concat (map (\<lambda>c. if c = old then new else [c]) s)"

text \<open>
  The chain of vectorised \<open>.str\<close> calls on \<open>df.columns\<close>: each call maps over all labels
  before the next one starts.
\<close>

definition clean_columns :: "string list \<Rightarrow> string list" where
  "clean_columns cols =
     map (str_replace (CHR ''-'') ''_'')
       (map (str_replace (CHR ''&'') ''and'')
         (map (str_replace (CHR '' '') ''_'')
           (map lower
             (map strip cols))))"

text \<open>What the chain does to one label.\<close>

definition normalize_header :: "string \<Rightarrow> string" where
  "normalize_header h =
     str_replace (CHR ''-'') ''_''
       (str_replace (CHR ''&'') ''and''
         (str_replace (CHR '' '') ''_''
           (lower (strip h))))"

text \<open>
  The reference transform, written from the specification's sentence and on its own terms:
  trimming removes the whitespace characters, listed one by one, from both ends; lowercasing
  replaces each capital letter of a table by the small letter at the same place; then one pass
  rewrites a space to an underscore, an ampersand to \<open>and\<close> and a hyphen to an underscore. It
  shares no definition with the chain above.
\<close>

definition spec_substitute :: "char \<Rightarrow> string" where
  "spec_substitute c =
     (if c = CHR '' '' then ''_''
      else if c = CHR ''&'' then ''and''
      else if c = CHR ''-'' then ''_''
      else [c])"

definition spec_whitespace :: "char list" where
  "spec_whitespace =
     [CHR 0x09, CHR 0x0A, CHR 0x0B, CHR 0x0C, CHR 0x0D, CHR 0x1C, CHR 0x1D, CHR 0x1E, CHR 0x1F,
      CHR 0x20, CHR 0x85, CHR 0xA0]"

fun spec_trim_left :: "string \<Rightarrow> string" where
  "spec_trim_left [] = []"
| "spec_trim_left (c # cs) = (if c \<in> set spec_whitespace then spec_trim_left cs else c # cs)"

fun spec_trim_right :: "string \<Rightarrow> string" where
  "spec_trim_right [] = []"
| "spec_trim_right (c # cs) =
     (case spec_trim_right cs of
        [] \<Rightarrow> (if c \<in> set spec_whitespace then [] else [c])
      | kept \<Rightarrow> c # kept)"

definition spec_trim :: "string \<Rightarrow> string" where
  "spec_trim h = spec_trim_right (spec_trim_left h)"

definition spec_capitals :: "char list" where
  "spec_capitals =
     ''ABCDEFGHIJKLMNOPQRSTUVWXYZ'' @
     [CHR 0xC0, CHR 0xC1, CHR 0xC2, CHR 0xC3, CHR 0xC4, CHR 0xC5, CHR 0xC6, CHR 0xC7,
      CHR 0xC8, CHR 0xC9, CHR 0xCA, CHR 0xCB, CHR 0xCC, CHR 0xCD, CHR 0xCE, CHR 0xCF,
      CHR 0xD0, CHR 0xD1, CHR 0xD2, CHR 0xD3, CHR 0xD4, CHR 0xD5, CHR 0xD6,
      CHR 0xD8, CHR 0xD9, CHR 0xDA, CHR 0xDB, CHR 0xDC, CHR 0xDD, CHR 0xDE]"

definition spec_smalls :: "char list" where
  "spec_smalls =
     ''abcdefghijklmnopqrstuvwxyz'' @
     [CHR 0xE0, CHR 0xE1, CHR 0xE2, CHR 0xE3, CHR 0xE4, CHR 0xE5, CHR 0xE6, CHR 0xE7,
      CHR 0xE8, CHR 0xE9, CHR 0xEA, CHR 0xEB, CHR 0xEC, CHR 0xED, CHR 0xEE, CHR 0xEF,
      CHR 0xF0, CHR 0xF1, CHR 0xF2, CHR 0xF3, CHR 0xF4, CHR 0xF5, CHR 0xF6,
      CHR 0xF8, CHR 0xF9, CHR 0xFA, CHR 0xFB, CHR 0xFC, CHR 0xFD, CHR 0xFE]"

definition spec_lower_char :: "char \<Rightarrow> char" where
  "spec_lower_char c = (case map_of (zip spec_capitals spec_smalls) c of None \<Rightarrow> c | Some d \<Rightarrow> d)"

definition spec_lowercase :: "string \<Rightarrow> string" where
  "spec_lowercase h = map spec_lower_char h"

definition spec_normalize :: "string \<Rightarrow> string" where
  "spec_normalize h = concat (map spec_substitute (spec_lowercase (spec_trim h)))"

section \<open>Frames, cells and timestamp coercion (lines 41, 63-66)\<close>

datatype datetime = Datetime (year: nat) (month: nat) (day: nat) (hour: nat) (minute: nat) (second: nat)

text \<open>
  What a cell of the frame can hold: text, an integer, a finite double (mantissa and binary
  exponent), a boolean, the missing value, and after coercion a timestamp or the missing
  timestamp.
\<close>

datatype cell =
    Str string
  | Int64 int
  | Float64 int int
  | Boolean bool
  | NaN
  | Timestamp datetime
  | NaT

text \<open>
  What \<open>row.get(col)\<close> returns: the cell under the label, a sub-series when the label occurs
  more than once in the row's index, and \<open>None\<close> when it is absent.
\<close>

datatype pyvalue = Scalar cell | Series "cell list" | PyNone

datatype error =
    FetchFailed int
  | ParserError
  | KeyError
  | ValueError
  | IndexError
  | NoExpectedColumns
  | DatabaseError

text \<open>
  A \<open>DataFrame\<close> as the script uses it: its column labels in order and its rows in order,
  each row holding one cell per label, by position.
\<close>

record dataframe =
  columns :: "string list"
  rows :: "cell list list"

fun lookup_row :: "string \<Rightarrow> string list \<Rightarrow> cell list \<Rightarrow> cell list" where
  "lookup_row name (c # cs) (v # vs) =
     (if c = name then v # lookup_row name cs vs else lookup_row name cs vs)"
| "lookup_row name _ _ = []"

definition row_get :: "string list \<Rightarrow> cell list \<Rightarrow> string \<Rightarrow> pyvalue" where
  "row_get cols row col =
     (case lookup_row col cols row of
        [] \<Rightarrow> PyNone
      | [v] \<Rightarrow> Scalar v
      | vs \<Rightarrow> Series vs)"

text \<open>
  The cell of a row under a label that occurs once. A row that is too short to hold it reads
  as the missing value, which is how the reader pads a short line.
\<close>

definition cell_of :: "string \<Rightarrow> string list \<Rightarrow> cell list \<Rightarrow> cell" where
  "cell_of name cols row = (case lookup_row name cols row of [] \<Rightarrow> NaN | v # _ \<Rightarrow> v)"

text \<open>
  \<open>df[name]\<close> handed to \<open>pd.to_datetime\<close>: a missing label is a \<open>KeyError\<close>; a label that
  occurs once selects a series, one cell per row; a label that occurs several times selects a
  frame, which \<open>pd.to_datetime\<close> refuses with a \<open>ValueError\<close> (duplicate keys).
\<close>

definition getitem :: "dataframe \<Rightarrow> string \<Rightarrow> error + cell list" where
  "getitem df name =
     (if count_list (columns df) name = 0 then Inl KeyError
      else if count_list (columns df) name = 1
        then Inr (map (cell_of name (columns df)) (rows df))
      else Inl ValueError)"

text \<open>
  \<open>pd.to_datetime(series, errors="coerce")\<close>. The parser of the library is a parameter: it
  reads one value in the context of the whole series (the library may infer a format from the
  series) and yields a timestamp or nothing. What it does not read becomes \<open>NaT\<close>.
\<close>

definition coerce :: "(cell \<Rightarrow> datetime option) \<Rightarrow> cell \<Rightarrow> cell" where
  "coerce p v = (case p v of Some t \<Rightarrow> Timestamp t | None \<Rightarrow> NaT)"

definition to_datetime :: "(cell list \<Rightarrow> cell \<Rightarrow> datetime option) \<Rightarrow> cell list \<Rightarrow> cell list" where
  "to_datetime parse series = map (coerce (parse series)) series"

text \<open>\<open>df[name] = series\<close>: row \<open>k\<close> receives the \<open>k\<close>-th value under the label.\<close>

fun put_cell :: "string \<Rightarrow> cell \<Rightarrow> string list \<Rightarrow> cell list \<Rightarrow> cell list" where
  "put_cell name new (c # cs) (v # vs) =
     (if c = name then new else v) # put_cell name new cs vs"
| "put_cell name new _ vs = vs"

definition setitem :: "dataframe \<Rightarrow> string \<Rightarrow> cell list \<Rightarrow> dataframe" where
  "setitem df name series =
     (if name \<in> set (columns df)
      then df\<lparr>rows := map (\<lambda>(row, new). put_cell name new (columns df) row) (zip (rows df) series)\<rparr>
      else df\<lparr>columns := columns df @ [name],
              rows := map (\<lambda>(row, new). row @ [new]) (zip (rows df) series)\<rparr>)"

definition convert_column ::
  "(cell list \<Rightarrow> cell \<Rightarrow> datetime option) \<Rightarrow> string \<Rightarrow> dataframe \<Rightarrow> error + dataframe" where
  "convert_column parse name df =
     (if name \<in> set (columns df)
      then (case getitem df name of
              Inl e \<Rightarrow> Inl e
            | Inr series \<Rightarrow> Inr (setitem df name (to_datetime parse series)))
      else Inr df)"

definition convert_timestamps ::
  "(cell list \<Rightarrow> cell \<Rightarrow> datetime option) \<Rightarrow> dataframe \<Rightarrow> error + dataframe" where
  "convert_timestamps parse df =
     (case convert_column parse ''start'' df of
        Inl e \<Rightarrow> Inl e
      | Inr df1 \<Rightarrow> convert_column parse ''end'' df1)"

section \<open>Column projection and the insert statement (lines 109-141)\<close>

definition schema_name :: string where
  "schema_name = ''mental_health''"

definition table_name :: string where
  "table_name = ''mental_health_wellbeing''"

text \<open>The dictionary literal, in its declaration order (a Python \<open>dict\<close> keeps it).\<close>

definition COLUMN_MAP :: "(string \<times> string) list" where
  "COLUMN_MAP =
     [(''start'', ''start_time''),
      (''end'', ''end_time''),
      (''age_range'', ''age_range''),
      (''gender'', ''gender''),
      (''location'', ''location''),
      (''stressed_or_overwhelmed'', ''stressed_or_overwhelmed''),
      (''source_of_stress'', ''source_of_stress''),
      (''mental_health_issue_experienced'', ''mental_health_issue_experienced''),
      (''rate_your_current_mental_health'', ''rate_your_current_mental_health''),
      (''cope_with_stress_or_emotional_challenges'', ''cope_with_stress_or_emotional_challenges''),
      (''met_mental_health_professional'', ''Met_mental_health_professional''),
      (''seeking_support'', ''seeking_support''),
      (''interested_in_attending_therapy_sessions'', ''interested_in_attending_therapy_sessions''),
      (''joining_mental_health_support_group'', ''joining_mental_health_support_group''),
      (''mental_health_support_you_need'', ''mental_health_support_you_need'')]"

definition existing_columns :: "string list \<Rightarrow> string list" where
  "existing_columns df_columns = filter (\<lambda>col. col \<in> set df_columns) (map fst COLUMN_MAP)"

text \<open>\<open>COLUMN_MAP[col]\<close> raises \<open>KeyError\<close> on a key the dictionary lacks.\<close>

definition column_map_item :: "string \<Rightarrow> error + string" where
  "column_map_item col = (case map_of COLUMN_MAP col of None \<Rightarrow> Inl KeyError | Some d \<Rightarrow> Inr d)"

fun destination_columns :: "string list \<Rightarrow> error + string list" where
  "destination_columns [] = Inr []"
| "destination_columns (col # cols) =
     (case column_map_item col of
        Inl e \<Rightarrow> Inl e
      | Inr d \<Rightarrow> (case destination_columns cols of Inl e \<Rightarrow> Inl e | Inr ds \<Rightarrow> Inr (d # ds)))"

fun join :: "string \<Rightarrow> string list \<Rightarrow> string" where
  "join sep [] = []"
| "join sep [x] = x"
| "join sep (x # y # ys) = x @ sep @ join sep (y # ys)"

text \<open>The f-string of lines 138-141, line breaks and indentation included.\<close>

definition insert_query :: "string list \<Rightarrow> nat \<Rightarrow> string" where
  "insert_query dest_columns n =
     [CHR 0x0A] @ ''    INSERT INTO '' @ schema_name @ ''.'' @ table_name @ '' (''
       @ join '', '' dest_columns @ '')'' @
     [CHR 0x0A] @ ''    VALUES ('' @ join '', '' (replicate n ''%s'') @ '')'' @
     [CHR 0x0A]"

text \<open>
  Reading the statement back, as the database does: the column list is what stands between
  the first pair of parentheses, separated by commas, blanks before a name dropped; a
  placeholder is an occurrence of \<open>%s\<close>.
\<close>

fun split_on :: "char \<Rightarrow> string \<Rightarrow> string list" where
  "split_on sep [] = [[]]"
| "split_on sep (c # cs) =
     (if c = sep then [] # split_on sep cs
      else (case split_on sep cs of [] \<Rightarrow> [[c]] | w # ws \<Rightarrow> (c # w) # ws))"

definition query_columns :: "string \<Rightarrow> string list" where
  "query_columns q =
     map (dropWhile (\<lambda>c. c = CHR '' ''))
       (split_on (CHR '','')
          (takeWhile (\<lambda>c. c \<noteq> CHR '')'') (drop 1 (dropWhile (\<lambda>c. c \<noteq> CHR ''('') q))))"

fun placeholders :: "string \<Rightarrow> nat" where
  "placeholders (c # d # cs) =
     (if c = CHR ''%'' \<and> d = CHR ''s'' then Suc (placeholders cs) else placeholders (d # cs))"
| "placeholders _ = 0"

text \<open>\<open>df.iloc[0]\<close>: the first row, or \<open>IndexError\<close> on a frame without rows.\<close>

definition iloc0 :: "dataframe \<Rightarrow> error + cell list" where
  "iloc0 df = (case rows df of [] \<Rightarrow> Inl IndexError | row # _ \<Rightarrow> Inr row)"

text \<open>
  The tuples of line 150, one per row of \<open>df.iterrows()\<close>, in row order. A cell is handed over
  as the frame holds it. On a frame whose columns are all numeric \<open>iterrows\<close> gives a row one
  numeric type (an integer next to a float arrives as a float): that change of a number's type
  is not modelled; it moves no value to another row or another place in its tuple.
\<close>

definition values_list :: "dataframe \<Rightarrow> string list \<Rightarrow> pyvalue list list" where
  "values_list df existing = map (\<lambda>row. map (row_get (columns df) row) existing) (rows df)"

section \<open>The run and its effects (the script, top to bottom)\<close>

text \<open>
  The response of \<open>requests.get\<close>: its status and its text (\<open>response.text\<close>, here \<open>body\<close>).
\<close>

record response =
  status_code :: int
  body :: string

text \<open>
  What the run does to the outside, in order: the one HTTP request, the connection, the
  statements sent through the cursor, the commit and the two closes.
\<close>

datatype event =
    HttpGet
  | Connect
  | CreateSchema
  | DropTable
  | CreateTable
  | ExecuteBatch string "pyvalue list list"
  | Commit
  | CursorClose
  | ConnectionClose

text \<open>Step 1 (lines 33-35): any status other than 200 raises.\<close>

definition fetch :: "response \<Rightarrow> error + string" where
  "fetch r = (if status_code r \<noteq> 200 then Inl (FetchFailed (status_code r)) else Inr (body r))"

text \<open>
  Step 2 (lines 41-51). \<open>pd.read_csv(..., sep=";", on_bad_lines="skip")\<close> is the library's:
  it is a parameter, which yields the frame of the lines that parsed, in their order, or
  nothing when the library raises (text without a header line, for one).
\<close>

definition load_frame :: "(string \<Rightarrow> dataframe option) \<Rightarrow> string \<Rightarrow> error + dataframe" where
  "load_frame read_csv csv =
     (case read_csv csv of
        None \<Rightarrow> Inl ParserError
      | Some df \<Rightarrow> Inr (df\<lparr>columns := clean_columns (columns df)\<rparr>))"

text \<open>Steps 1 to 3: everything the run does before it opens the connection.\<close>

definition prepare ::
  "(string \<Rightarrow> dataframe option) \<Rightarrow> (cell list \<Rightarrow> cell \<Rightarrow> datetime option) \<Rightarrow> response
     \<Rightarrow> error + dataframe" where
  "prepare read_csv parse r =
     (case fetch r of
        Inl e \<Rightarrow> Inl e
      | Inr csv \<Rightarrow>
          (case load_frame read_csv csv of
             Inl e \<Rightarrow> Inl e
           | Inr df \<Rightarrow> convert_timestamps parse df))"

text \<open>Step 4 (lines 72-103): connect, then the three statements of schema provisioning.\<close>

definition provision :: "event list" where
  "provision = [Connect, CreateSchema, DropTable, CreateTable]"

text \<open>
  Steps 4 to 7 (lines 72-159): provisioning, the projection (line 128), the statement (lines
  138-141), the preview of the first row (line 145), the values (line 150) and the insert.
  Whether the server takes the batch is the database's to say: \<open>db_accepts\<close> is a parameter,
  and a refused batch raises out of \<open>execute_batch\<close>. An exception ends the script where it is
  raised: no commit, no close.
\<close>

definition load ::
  "(string \<Rightarrow> pyvalue list list \<Rightarrow> bool) \<Rightarrow> dataframe \<Rightarrow> event list \<times> (error + unit)" where
  "load db_accepts df =
     (let existing = existing_columns (columns df) in
      if length existing = 0 then (provision, Inl NoExpectedColumns)
      else
        (case destination_columns existing of
           Inl e \<Rightarrow> (provision, Inl e)
         | Inr dests \<Rightarrow>
             (let query = insert_query dests (length existing) in
              case iloc0 df of
                Inl e \<Rightarrow> (provision, Inl e)
              | Inr first_row \<Rightarrow>
                  (let vals = values_list df existing in
                   if length vals = 0
                     then (provision @ [CursorClose, ConnectionClose], Inr ())
                   else if db_accepts query vals
                     then (provision @ [ExecuteBatch query vals, Commit, CursorClose, ConnectionClose],
                           Inr ())
                   else (provision, Inl DatabaseError)))))"

definition run ::
  "(string \<Rightarrow> dataframe option) \<Rightarrow> (cell list \<Rightarrow> cell \<Rightarrow> datetime option) \<Rightarrow>
     (string \<Rightarrow> pyvalue list list \<Rightarrow> bool) \<Rightarrow> response \<Rightarrow> event list \<times> (error + unit)" where
  "run read_csv parse db_accepts r =
     (case prepare read_csv parse r of
        Inl e \<Rightarrow> ([HttpGet], Inl e)
      | Inr df \<Rightarrow> (HttpGet # fst (load db_accepts df), snd (load db_accepts df)))"

section \<open>The database the events act on\<close>

text \<open>
  The destination is PostgreSQL through psycopg2, which opens a transaction at the first
  statement and keeps it open until \<open>commit\<close>; what a connection leaves uncommitted when it
  closes, or when the process ends, is rolled back. A stored row is its generated \<open>id\<close> and
  the values given for the columns named in the insert statement; \<open>serial\<close> is the next value
  of the table's sequence, which a fresh table starts at 1.
\<close>

type_synonym db_row = "nat \<times> (string \<times> pyvalue) list"

record database =
  has_schema :: bool
  relation :: "db_row list option"
  serial :: nat

definition insert_rows :: "string list \<Rightarrow> pyvalue list list \<Rightarrow> database \<Rightarrow> database" where
  "insert_rows cols params db =
     (case relation db of
        None \<Rightarrow> db
      | Some stored \<Rightarrow>
          db\<lparr>relation := Some (stored @ zip [serial db ..< serial db + length params]
                                          (map (zip cols) params)),
             serial := serial db + length params\<rparr>)"

fun execute :: "event \<Rightarrow> database \<Rightarrow> database" where
  "execute CreateSchema db = db\<lparr>has_schema := True\<rparr>"
| "execute DropTable db = db\<lparr>relation := None\<rparr>"
| "execute CreateTable db = db\<lparr>relation := Some [], serial := 1\<rparr>"
| "execute (ExecuteBatch query params) db = insert_rows (query_columns query) params db"
| "execute _ db = db"

text \<open>
  A session is the committed database and the view of the open transaction. \<open>db_after\<close> is
  the committed database once the events have happened and the process has ended.
\<close>

fun session_step :: "database \<times> database \<Rightarrow> event \<Rightarrow> database \<times> database" where
  "session_step (committed, view) Connect = (committed, committed)"
| "session_step (committed, view) Commit = (view, view)"
| "session_step (committed, view) ConnectionClose = (committed, committed)"
| "session_step (committed, view) e = (committed, execute e view)"

definition db_after :: "database \<Rightarrow> event list \<Rightarrow> database" where
  "db_after db0 events = fst (foldl session_step (db0, db0) events)"

section \<open>Stand-ins for the library, used in the examples\<close>

text \<open>
  A reader for text whose fields are unquoted and not numeric: the first line gives the
  labels, an empty line is passed over, a later line with more fields than labels is skipped, a
  shorter one is padded with the missing value, an empty field is the missing value. It stands
  in for \<open>pd.read_csv\<close> in the examples, whose lines all hold as many fields as there are
  labels.
\<close>

definition plain_field :: "string \<Rightarrow> cell" where
  "plain_field s = (if s = [] then NaN else Str s)"

definition plain_row :: "nat \<Rightarrow> string \<Rightarrow> cell list" where
  "plain_row n line =
     (let cells = map plain_field (split_on (CHR '';'') line)
      in cells @ replicate (n - length cells) NaN)"

definition read_plain_csv :: "string \<Rightarrow> dataframe option" where
  "read_plain_csv csv =
     (case filter (\<lambda>l. l \<noteq> []) (split_on (CHR 0x0A) csv) of
        [] \<Rightarrow> None
      | header # lines \<Rightarrow>
          (let cols = split_on (CHR '';'') header
           in Some \<lparr>columns = cols,
                     rows = map (plain_row (length cols))
                             (filter (\<lambda>l. length (split_on (CHR '';'') l) \<le> length cols) lines)\<rparr>))"

text \<open>
  A parser for the form \<open>YYYY-MM-DDTHH:MM:SS\<close> of ISO 8601, one of the forms
  \<open>pd.to_datetime\<close> reads.
\<close>

definition digit :: "char \<Rightarrow> nat option" where
  "digit c = (let n = (of_char c :: nat) in if 48 \<le> n \<and> n \<le> 57 then Some (n - 48) else None)"

fun number :: "string \<Rightarrow> nat option" where
  "number [] = None"
| "number cs =
     foldl (\<lambda>acc c. case (acc, digit c) of (Some a, Some d) \<Rightarrow> Some (10 * a + d) | _ \<Rightarrow> None)
       (Some 0) cs"

definition days_in_month :: "nat \<Rightarrow> nat \<Rightarrow> nat" where
  "days_in_month y m =
     (if m = 2 then (if (y mod 4 = 0 \<and> y mod 100 \<noteq> 0) \<or> y mod 400 = 0 then 29 else 28)
      else if m = 4 \<or> m = 6 \<or> m = 9 \<or> m = 11 then 30 else 31)"

definition iso_datetime :: "string \<Rightarrow> datetime option" where
  "iso_datetime s =
     (if length s = 19 \<and> s ! 4 = CHR ''-'' \<and> s ! 7 = CHR ''-'' \<and> s ! 10 = CHR ''T''
         \<and> s ! 13 = CHR '':'' \<and> s ! 16 = CHR '':''
      then
        (case (number (take 4 s), number (take 2 (drop 5 s)), number (take 2 (drop 8 s)),
               number (take 2 (drop 11 s)), number (take 2 (drop 14 s)), number (take 2 (drop 17 s))) of
           (Some y, Some m, Some d, Some h, Some mi, Some sec) \<Rightarrow>
             (if 1 \<le> m \<and> m \<le> 12 \<and> 1 \<le> d \<and> d \<le> days_in_month y m \<and> h < 24 \<and> mi < 60 \<and> sec < 60
              then Some (Datetime y m d h mi sec) else None)
         | _ \<Rightarrow> None)
      else None)"

definition iso_parser :: "cell list \<Rightarrow> cell \<Rightarrow> datetime option" where
  "iso_parser series v = (case v of Str s \<Rightarrow> iso_datetime s | Timestamp t \<Rightarrow> Some t | _ \<Rightarrow> None)"

text \<open>
  The server's answer to a batch. psycopg2 sends \<open>NaT\<close> as the timestamp literal \<open>'NaT'\<close>, for
  which PostgreSQL has no input syntax, and it cannot adapt a sub-series at all: a batch that
  holds either is refused. Text, numbers, timestamps and \<open>None\<close> are taken.
\<close>

definition postgres_accepts :: "string \<Rightarrow> pyvalue list list \<Rightarrow> bool" where
  "postgres_accepts query vals =
     list_all (\<lambda>v. case v of Scalar NaT \<Rightarrow> False | Series vs \<Rightarrow> False | _ \<Rightarrow> True) (concat vals)"

section \<open>Names the statement can be read back with\<close>

text \<open>
  A name that survives the reading back of the statement: not empty, and free of the
  characters the statement's own syntax uses.
\<close>

definition plain_name :: "string \<Rightarrow> bool" where
  "plain_name d =
     (d \<noteq> [] \<and>
      list_all (\<lambda>c. c \<noteq> CHR '','' \<and> c \<noteq> CHR '')'' \<and> c \<noteq> CHR ''('' \<and> c \<noteq> CHR '' ''
                    \<and> c \<noteq> CHR ''%'') d)"

section \<open>Header cleaning: the chain and the reference transform\<close>

lemma concat_map_concat_map:
  "concat (map f (concat (map g xs))) = concat (map (\<lambda>x. concat (map f (g x))) xs)"
  by (induction xs) simp_all

lemma replace_chain:
  "str_replace (CHR ''-'') ''_'' (str_replace (CHR ''&'') ''and'' (str_replace (CHR '' '') ''_'' s))
     = concat (map spec_substitute s)"
  unfolding str_replace_def concat_map_concat_map
  by (rule arg_cong [where f = concat], rule map_cong [OF refl]) (simp add: spec_substitute_def)

text \<open>A property of every character is checked on the 256 of them.\<close>

lemma every_char: "list_all P (Enum.enum :: char list) \<Longrightarrow> P c"
  using UNIV_enum [where ?'a = char] by (auto simp: list_all_iff)

lemma isspace_spec: "isspace c = (c \<in> set spec_whitespace)"
  by (rule every_char [where P = "\<lambda>c. isspace c = (c \<in> set spec_whitespace)"]) code_simp

lemma lower_chr_spec: "lower_chr c = spec_lower_char c"
  by (rule every_char [where P = "\<lambda>c. lower_chr c = spec_lower_char c"]) code_simp

lemma spec_trim_left_eq: "spec_trim_left s = dropWhile isspace s"
  by (induction s) (simp_all add: isspace_spec)

lemma rev_dropWhile_rev_Nil: "rev (dropWhile P (rev s)) = [] \<longleftrightarrow> list_all P s"
  by (simp add: dropWhile_eq_Nil_conv list_all_iff)

lemma rev_dropWhile_rev_Cons:
  "rev (dropWhile P (rev (c # cs)))
     = (if list_all P cs then (if P c then [] else [c]) else c # rev (dropWhile P (rev cs)))"
  by (simp add: dropWhile_append list_all_iff)

lemma spec_trim_right_eq: "spec_trim_right s = rev (dropWhile isspace (rev s))"
proof (induction s)
  case Nil
  then show ?case by simp
next
  case (Cons c cs)
  show ?case
  proof (cases "list_all isspace cs")
    case True
    then have "rev (dropWhile isspace (rev cs)) = []" by (simp only: rev_dropWhile_rev_Nil)
    with Cons True show ?thesis
      by (simp only: rev_dropWhile_rev_Cons spec_trim_right.simps) (simp add: isspace_spec)
  next
    case False
    then have "rev (dropWhile isspace (rev cs)) \<noteq> []"
      using rev_dropWhile_rev_Nil [of isspace cs] by blast
    then obtain k ks where k: "rev (dropWhile isspace (rev cs)) = k # ks"
      by (cases "rev (dropWhile isspace (rev cs))") blast+
    have "spec_trim_right (c # cs) = c # k # ks"
      using Cons k by simp
    moreover have "rev (dropWhile isspace (rev (c # cs))) = c # k # ks"
      using False k by (simp only: rev_dropWhile_rev_Cons if_False)
    ultimately show ?thesis by simp
  qed
qed

lemma spec_trim_eq: "spec_trim h = strip h"
  by (simp add: spec_trim_def strip_def spec_trim_left_eq spec_trim_right_eq)

lemma spec_lowercase_eq: "spec_lowercase h = lower h"
  by (simp add: spec_lowercase_def lower_def lower_chr_spec)

lemma spec_normalize_code: "spec_normalize h = concat (map spec_substitute (lower (strip h)))"
  by (simp add: spec_normalize_def spec_trim_eq spec_lowercase_eq)

text \<open>What the reference trimming leaves out is whitespace at the two ends, and nothing else.\<close>

lemma spec_trim_frame:
  "\<exists>before after. h = before @ spec_trim h @ after
     \<and> list_all (\<lambda>c. c \<in> set spec_whitespace) before
     \<and> list_all (\<lambda>c. c \<in> set spec_whitespace) after"
proof -
  let ?t = "dropWhile isspace h"
  have "h = takeWhile isspace h @ ?t" by simp
  moreover have "rev ?t = takeWhile isspace (rev ?t) @ dropWhile isspace (rev ?t)" by simp
  then have "?t = rev (dropWhile isspace (rev ?t)) @ rev (takeWhile isspace (rev ?t))"
    by (metis rev_append rev_rev_ident)
  ultimately have "h = takeWhile isspace h @ spec_trim h @ rev (takeWhile isspace (rev ?t))"
    by (simp add: spec_trim_eq strip_def)
  moreover have "list_all (\<lambda>c. c \<in> set spec_whitespace) (takeWhile isspace h)"
    by (auto simp: list_all_iff isspace_spec dest: set_takeWhileD)
  moreover have "list_all (\<lambda>c. c \<in> set spec_whitespace) (rev (takeWhile isspace (rev ?t)))"
    by (auto simp: list_all_iff isspace_spec dest: set_takeWhileD)
  ultimately show ?thesis by blast
qed

lemma normalize_header_eq: "normalize_header h = spec_normalize h"
  by (simp add: normalize_header_def spec_normalize_code replace_chain)

lemma clean_columns_eq: "clean_columns cols = map normalize_header cols"
  by (simp add: clean_columns_def normalize_header_def)

lemma lower_chr_idem: "lower_chr (lower_chr c) = lower_chr c"
  unfolding lower_chr_def Let_def by auto

lemma isspace_lower_chr: "isspace (lower_chr c) = isspace c"
  unfolding lower_chr_def isspace_def Let_def by auto

lemma strip_ends:
  "strip s = [] \<or> (\<not> isspace (hd (strip s)) \<and> \<not> isspace (last (strip s)))"
proof -
  let ?t = "dropWhile isspace (rev (dropWhile isspace s))"
  show ?thesis
  proof (cases "?t = []")
    case True
    then show ?thesis by (simp add: strip_def)
  next
    case False
    then have h: "\<not> isspace (hd ?t)" by (rule hd_dropWhile)
    have ne: "dropWhile isspace s \<noteq> []"
    proof
      assume "dropWhile isspace s = []"
      then have "?t = dropWhile isspace (rev [])" by (simp only:)
      then have "?t = []" by simp
      with False show False by simp
    qed
    from ne have "\<not> isspace (hd (dropWhile isspace s))" by (rule hd_dropWhile)
    moreover have "hd (dropWhile isspace s) = last (rev (dropWhile isspace s))"
      using ne by (simp add: last_rev)
    moreover have "last (rev (dropWhile isspace s)) = last ?t"
      using False by (metis last_appendR takeWhile_dropWhile_id)
    ultimately have "\<not> isspace (last ?t)" by simp
    then show ?thesis using h False by (simp add: strip_def hd_rev last_rev)
  qed
qed

lemma strip_fixed:
  assumes "s = [] \<or> (\<not> isspace (hd s) \<and> \<not> isspace (last s))"
  shows "strip s = s"
proof (cases "s = []")
  case True
  then show ?thesis by (simp add: strip_def)
next
  case False
  with assms have a: "\<not> isspace (hd s)" and b: "\<not> isspace (last s)" by auto
  from False a have "dropWhile isspace s = s" by (cases s) auto
  moreover from False b have "dropWhile isspace (rev s) = rev s"
    by (cases "rev s") (auto simp: last_rev [symmetric] hd_rev)
  ultimately show ?thesis by (simp add: strip_def)
qed


lemma substitute_lower_chars:
  "d \<in> set (spec_substitute (lower_chr c)) \<Longrightarrow>
     lower_chr d = d \<and> d \<noteq> CHR '' '' \<and> d \<noteq> CHR ''&'' \<and> d \<noteq> CHR ''-''"
  unfolding spec_substitute_def
  by (auto simp: lower_chr_idem split: if_splits) (simp_all add: lower_chr_def)

lemma substitute_nonempty: "spec_substitute c \<noteq> []"
  by (simp add: spec_substitute_def)

lemma substitute_ends:
  "\<not> isspace c \<Longrightarrow>
     \<not> isspace (hd (spec_substitute (lower_chr c))) \<and> \<not> isspace (last (spec_substitute (lower_chr c)))"
  unfolding spec_substitute_def
  by (auto simp: isspace_lower_chr) (simp_all add: isspace_def)

lemma hd_concat_map:
  "xs \<noteq> [] \<Longrightarrow> f (hd xs) \<noteq> [] \<Longrightarrow> hd (concat (map f xs)) = hd (f (hd xs))"
  by (cases xs) simp_all

lemma last_concat_map:
  "xs \<noteq> [] \<Longrightarrow> f (last xs) \<noteq> [] \<Longrightarrow> last (concat (map f xs)) = last (f (last xs))"
  by (induction xs rule: rev_induct) simp_all

lemma spec_normalize_chars:
  "d \<in> set (spec_normalize h) \<Longrightarrow>
     lower_chr d = d \<and> d \<noteq> CHR '' '' \<and> d \<noteq> CHR ''&'' \<and> d \<noteq> CHR ''-''"
  unfolding spec_normalize_code lower_def
  using substitute_lower_chars by auto

lemma spec_normalize_ends:
  "spec_normalize h = [] \<or>
     (\<not> isspace (hd (spec_normalize h)) \<and> \<not> isspace (last (spec_normalize h)))"
proof (cases "strip h = []")
  case True
  then show ?thesis by (simp add: spec_normalize_code lower_def)
next
  case False
  with strip_ends [of h] have a: "\<not> isspace (hd (strip h))" and b: "\<not> isspace (last (strip h))"
    by auto
  let ?f = "\<lambda>c. spec_substitute (lower_chr c)"
  have eq: "spec_normalize h = concat (map ?f (strip h))"
    by (simp add: spec_normalize_code lower_def comp_def)
  have "hd (spec_normalize h) = hd (?f (hd (strip h)))"
    unfolding eq using False by (intro hd_concat_map) (simp_all add: substitute_nonempty)
  moreover have "last (spec_normalize h) = last (?f (last (strip h)))"
    unfolding eq using False by (intro last_concat_map) (simp_all add: substitute_nonempty)
  ultimately show ?thesis using substitute_ends [OF a] substitute_ends [OF b] by simp
qed

lemma spec_normalize_idem: "spec_normalize (spec_normalize h) = spec_normalize h"
proof -
  let ?t = "spec_normalize h"
  have s: "strip ?t = ?t" by (rule strip_fixed) (rule spec_normalize_ends)
  have l: "lower ?t = ?t"
    unfolding lower_def using spec_normalize_chars [of _ h] by (simp add: map_idI)
  have "concat (map spec_substitute ?t) = concat (map (\<lambda>c. [c]) ?t)"
    by (rule arg_cong [where f = concat], rule map_cong [OF refl])
       (use spec_normalize_chars [of _ h] in \<open>simp add: spec_substitute_def\<close>)
  then have r: "concat (map spec_substitute ?t) = ?t" by simp
  show ?thesis
    by (subst (1) spec_normalize_code) (simp only: s l r)
qed

text \<open>
  C2. The cleaning of a header, as the chain of \<open>.str\<close> calls computes it, is the reference
  transform (trim the listed whitespace from both ends, lowercase by the table, then space to
  underscore, ampersand to \<open>and\<close>, hyphen to underscore), for every header; applied to the
  labels of a frame it gives one cleaned label per label, in the same order, so no column is
  added or lost.
\<close>

theorem header_cleaning_is_reference_transform:
  "normalize_header h = spec_normalize h
   \<and> clean_columns cols = map spec_normalize cols
   \<and> length (clean_columns cols) = length cols"
  by (simp add: clean_columns_eq normalize_header_eq)

text \<open>
  C3. Cleaning is idempotent: a cleaned header is left as it is by a second cleaning, and so
  is a cleaned list of labels.
\<close>

theorem header_cleaning_idempotent:
  "normalize_header (normalize_header h) = normalize_header h
   \<and> clean_columns (clean_columns cols) = clean_columns cols"
  by (simp add: clean_columns_eq normalize_header_eq spec_normalize_idem)

section \<open>The static mapping and the projection\<close>

lemma column_map_keys_distinct: "distinct (map fst COLUMN_MAP)"
  by (simp add: COLUMN_MAP_def)

lemma column_map_values_distinct: "distinct (map snd COLUMN_MAP)"
  by (simp add: COLUMN_MAP_def)

lemma column_map_values_plain: "list_all plain_name (map snd COLUMN_MAP)"
  by (simp add: COLUMN_MAP_def plain_name_def)

lemma destination_columns_keys:
  "set ks \<subseteq> fst ` set COLUMN_MAP \<Longrightarrow>
     destination_columns ks = Inr (map (\<lambda>k. the (map_of COLUMN_MAP k)) ks)"
proof (induction ks)
  case Nil
  then show ?case by simp
next
  case (Cons k ks)
  then obtain d where "map_of COLUMN_MAP k = Some d"
    by (metis list.set_intros(1) map_of_eq_None_iff not_Some_eq subsetD)
  with Cons show ?case by (simp add: column_map_item_def)
qed

lemma lookup_filtered_keys:
  assumes "distinct (map fst m)"
  shows "map (\<lambda>k. the (map_of m k)) (filter P (map fst m)) = map snd (filter (\<lambda>(s, d). P s) m)"
proof -
  have "map (\<lambda>k. the (map_of m k)) (filter P (map fst m))
          = map (\<lambda>p. the (map_of m (fst p))) (filter (\<lambda>p. P (fst p)) m)"
    by (simp add: filter_map comp_def)
  also have "\<dots> = map snd (filter (\<lambda>p. P (fst p)) m)"
    using assms by (intro map_cong refl) auto
  finally show ?thesis by (simp add: case_prod_unfold)
qed

lemma destination_columns_existing:
  "destination_columns (existing_columns hdrs)
     = Inr (map snd (filter (\<lambda>(s, d). s \<in> set hdrs) COLUMN_MAP))"
proof -
  have "set (existing_columns hdrs) \<subseteq> fst ` set COLUMN_MAP"
    by (auto simp: existing_columns_def)
  then show ?thesis
    by (simp add: destination_columns_keys)
       (simp add: existing_columns_def lookup_filtered_keys [OF column_map_keys_distinct])
qed

section \<open>Reading the insert statement back\<close>

lemma split_on_no_sep: "sep \<notin> set x \<Longrightarrow> split_on sep x = [x]"
  by (induction x) auto

lemma split_on_append_sep:
  "sep \<notin> set x \<Longrightarrow> split_on sep (x @ sep # rest) = x # split_on sep rest"
  by (induction x) auto

lemma split_on_join:
  "xs \<noteq> [] \<Longrightarrow> list_all (\<lambda>x. CHR '','' \<notin> set x) xs \<Longrightarrow>
     split_on (CHR '','') (join '', '' xs) = hd xs # map (\<lambda>x. CHR '' '' # x) (tl xs)"
proof (induction "'', ''" xs rule: join.induct)
  case 1
  then show ?case by simp
next
  case (2 x)
  then show ?case by (simp add: split_on_no_sep)
next
  case (3 x y ys)
  then show ?case by (simp add: split_on_append_sep split_on_no_sep)
qed

lemma set_join: "set (join sep xs) \<subseteq> set sep \<union> \<Union> (set ` set xs)"
  by (induction sep xs rule: join.induct) auto

lemma plain_nameD:
  "plain_name d \<Longrightarrow> d \<noteq> [] \<and> hd d \<noteq> CHR '' '' \<and> CHR '','' \<notin> set d \<and> CHR '')'' \<notin> set d \<and> CHR ''%'' \<notin> set d"
  by (cases d) (auto simp: plain_name_def list_all_iff)

lemma query_columns_insert_query:
  assumes "dests \<noteq> []" and "list_all plain_name dests"
  shows "query_columns (insert_query dests n) = dests"
proof -
  let ?j = "join '', '' dests"
  have nopar: "CHR '')'' \<notin> set ?j"
    using set_join [of "'', ''" dests] assms(2) by (auto simp: list_all_iff dest: plain_nameD)
  have "takeWhile (\<lambda>c. c \<noteq> CHR '')'') (drop 1 (dropWhile (\<lambda>c. c \<noteq> CHR ''('') (insert_query dests n)))
          = takeWhile (\<lambda>c. c \<noteq> CHR '')'') (?j @ CHR '')'' # [CHR 0x0A] @ ''    VALUES ('' @ join '', '' (replicate n ''%s'') @ '')'' @ [CHR 0x0A])"
    by (simp add: insert_query_def schema_name_def table_name_def)
  also have "\<dots> = ?j"
    using nopar by (simp add: takeWhile_append)  
  finally have inner: "takeWhile (\<lambda>c. c \<noteq> CHR '')'') (drop 1 (dropWhile (\<lambda>c. c \<noteq> CHR ''('') (insert_query dests n))) = ?j" .
  have nocomma: "list_all (\<lambda>x. CHR '','' \<notin> set x) dests"
    using assms(2) by (auto simp: list_all_iff dest: plain_nameD)
  have "query_columns (insert_query dests n)
          = map (dropWhile (\<lambda>c. c = CHR '' '')) (hd dests # map (\<lambda>x. CHR '' '' # x) (tl dests))"
    unfolding query_columns_def inner using split_on_join [OF assms(1) nocomma] by simp
  also have "\<dots> = map (\<lambda>x. x) (hd dests # tl dests)"
    unfolding list.map map_map comp_def
  proof (intro arg_cong2 [where f = Cons] map_cong refl)
    show "dropWhile (\<lambda>c. c = CHR '' '') (hd dests) = hd dests"
      using assms by (cases dests; cases "hd dests") (auto simp: dest!: plain_nameD)
  next
    fix x assume "x \<in> set (tl dests)"
    then have "plain_name x" using assms by (cases dests) (auto simp: list_all_iff)
    then show "dropWhile (\<lambda>c. c = CHR '' '') (CHR '' '' # x) = x"
      by (cases x) (auto dest!: plain_nameD)
  qed
  finally show ?thesis using assms(1) by simp
qed

lemma placeholders_skip:
  "CHR ''%'' \<notin> set a \<Longrightarrow> placeholders (a @ b) = placeholders b"
proof (induction a)
  case Nil
  then show ?case by simp
next
  case (Cons c a)
  then show ?case by (cases "a @ b") auto
qed

lemma join_Cons: "join sep (x # xs) = (if xs = [] then x else x @ sep @ join sep xs)"
  by (cases xs) simp_all

lemma placeholders_replicate:
  "placeholders (join '', '' (replicate n ''%s'') @ CHR '')'' # rest) = n + placeholders (CHR '')'' # rest)"
proof (induction n)
  case 0
  then show ?case by simp
next
  case (Suc n)
  show ?case
  proof (cases "n = 0")
    case True
    then show ?thesis by simp
  next
    case False
    have "placeholders (join '', '' (replicate (Suc n) ''%s'') @ CHR '')'' # rest)
            = Suc (placeholders ('', '' @ (join '', '' (replicate n ''%s'') @ CHR '')'' # rest)))"
      using False by (simp add: join_Cons)
    also have "\<dots> = Suc (placeholders (join '', '' (replicate n ''%s'') @ CHR '')'' # rest))"
      by (subst placeholders_skip) simp_all
    finally show ?thesis using Suc by simp
  qed
qed

lemma placeholders_insert_query:
  assumes "list_all plain_name dests"
  shows "placeholders (insert_query dests n) = n"
proof -
  let ?head = "[CHR 0x0A] @ ''    INSERT INTO '' @ schema_name @ ''.'' @ table_name @ '' (''
       @ join '', '' dests @ '')'' @ [CHR 0x0A] @ ''    VALUES (''"
  have "CHR ''%'' \<notin> set (join '', '' dests)"
    using set_join [of "'', ''" dests] assms by (auto simp: list_all_iff dest: plain_nameD)
  then have head: "CHR ''%'' \<notin> set ?head"
    by (simp add: schema_name_def table_name_def)
  have "insert_query dests n = ?head @ (join '', '' (replicate n ''%s'') @ CHR '')'' # [CHR 0x0A])"
    by (simp add: insert_query_def)
  then have "placeholders (insert_query dests n)
               = placeholders (join '', '' (replicate n ''%s'') @ CHR '')'' # [CHR 0x0A])"
    using placeholders_skip [OF head] by simp
  then show ?thesis by (simp add: placeholders_replicate)
qed

section \<open>The insert statement of a run\<close>

lemma plain_destinations:
  "list_all plain_name (map snd (filter (\<lambda>(s, d). s \<in> set hdrs) COLUMN_MAP))"
  using column_map_values_plain by (auto simp: list_all_iff)

lemma length_existing_columns:
  "length (existing_columns hdrs) = length (map snd (filter (\<lambda>(s, d). s \<in> set hdrs) COLUMN_MAP))"
  by (simp add: existing_columns_def filter_map comp_def case_prod_unfold)

lemma existing_nonempty_destinations:
  "existing_columns hdrs \<noteq> [] \<Longrightarrow> map snd (filter (\<lambda>(s, d). s \<in> set hdrs) COLUMN_MAP) \<noteq> []"
  using length_existing_columns [of hdrs] by (metis length_0_conv)

text \<open>
  C5. For every list of fetched, cleaned headers, the list of destination names built from
  the static mapping holds each name once, and a name is in it exactly when it is the mapping's
  image of a source column that is among the fetched headers: a mapped column that the data
  lacks is left out, and a fetched column that the mapping lacks adds nothing. Whenever an
  insert statement is generated (the list is not empty), the column list read back from the
  statement's text is this list.
\<close>

theorem insert_statement_columns:
  "\<exists>dests. destination_columns (existing_columns hdrs) = Inr dests
         \<and> distinct dests
         \<and> set dests = {d. \<exists>s. s \<in> set hdrs \<and> (s, d) \<in> set COLUMN_MAP}
         \<and> (existing_columns hdrs \<noteq> [] \<longrightarrow>
               query_columns (insert_query dests (length (existing_columns hdrs))) = dests)"
proof -
  let ?dests = "map snd (filter (\<lambda>(s, d). s \<in> set hdrs) COLUMN_MAP)"
  have "existing_columns hdrs \<noteq> [] \<longrightarrow>
          query_columns (insert_query ?dests (length (existing_columns hdrs))) = ?dests"
  proof
    assume ne: "existing_columns hdrs \<noteq> []"
    show "query_columns (insert_query ?dests (length (existing_columns hdrs))) = ?dests"
      by (rule query_columns_insert_query [OF existing_nonempty_destinations [OF ne] plain_destinations])
  qed
  moreover have "distinct ?dests"
    using column_map_values_distinct by (simp add: distinct_map_filter)
  moreover have "set ?dests = {d. \<exists>s. s \<in> set hdrs \<and> (s, d) \<in> set COLUMN_MAP}"
    by force
  ultimately show ?thesis
    using destination_columns_existing [of hdrs] by blast
qed

text \<open>Witness for C5: three fetched headers, one of them not in the mapping.\<close>

theorem insert_statement_columns_witness:
  "existing_columns [''gender'', ''favourite_colour'', ''start''] = [''start'', ''gender'']
   \<and> destination_columns [''start'', ''gender''] = Inr [''start_time'', ''gender'']
   \<and> query_columns (insert_query [''start_time'', ''gender''] 2) = [''start_time'', ''gender'']"
proof -
  let ?h = "[''gender'', ''favourite_colour'', ''start'']"
  have e: "existing_columns ?h = [''start'', ''gender'']"
    by (simp add: existing_columns_def COLUMN_MAP_def)
  have d: "destination_columns [''start'', ''gender''] = Inr [''start_time'', ''gender'']"
    by (simp add: column_map_item_def COLUMN_MAP_def)
  have "existing_columns ?h \<noteq> []" by (simp add: e)
  with insert_statement_columns [of ?h] obtain dests where
    "destination_columns (existing_columns ?h) = Inr dests"
    "query_columns (insert_query dests (length (existing_columns ?h))) = dests"
    by blast
  with e d show ?thesis by (simp add: numeral_2_eq_2)
qed


lemma existing_columns_set:
  "set hdrs' = set hdrs \<Longrightarrow> existing_columns hdrs' = existing_columns hdrs"
  by (simp add: existing_columns_def)

lemma existing_columns_item:
  assumes "i < length (existing_columns hdrs)"
  shows "map_of COLUMN_MAP (existing_columns hdrs ! i)
           = Some (map snd (filter (\<lambda>(s, d). s \<in> set hdrs) COLUMN_MAP) ! i)"
proof -
  let ?f = "filter (\<lambda>(s, d). s \<in> set hdrs) COLUMN_MAP"
  have e: "existing_columns hdrs = map fst ?f"
    by (simp add: existing_columns_def filter_map comp_def case_prod_unfold)
  with assms have i: "i < length ?f" by simp
  then have "?f ! i \<in> set COLUMN_MAP" using nth_mem [OF i] by auto
  then have "map_of COLUMN_MAP (fst (?f ! i)) = Some (snd (?f ! i))"
    using column_map_keys_distinct by simp
  then show ?thesis using i by (simp add: e)
qed

text \<open>
  C10. For every frame: the list of destination columns is the mapping's declaration order
  restricted to the source columns present, whatever the order of the fetched headers (two
  header lists with the same names give the same list), and it is what the column list of the
  insert statement reads back to whenever a statement is generated; the statement holds as many
  \<open>%s\<close> placeholders as destination columns; and the values list holds one tuple per row,
  each of that arity, whose \<open>i\<close>-th component is the row's value under the source column that
  the mapping sends to the \<open>i\<close>-th destination column.
\<close>

theorem insert_statement_order_and_arity:
  shows "\<exists>dests.
           destination_columns (existing_columns (columns df)) = Inr dests
         \<and> dests = map snd (filter (\<lambda>(s, d). s \<in> set (columns df)) COLUMN_MAP)
         \<and> (\<forall>hdrs. set hdrs = set (columns df) \<longrightarrow>
               destination_columns (existing_columns hdrs) = Inr dests)
         \<and> (existing_columns (columns df) \<noteq> [] \<longrightarrow>
               query_columns (insert_query dests (length (existing_columns (columns df)))) = dests)
         \<and> placeholders (insert_query dests (length (existing_columns (columns df)))) = length dests
         \<and> length (values_list df (existing_columns (columns df))) = length (rows df)
         \<and> (\<forall>k<length (rows df).
               length (values_list df (existing_columns (columns df)) ! k) = length dests
             \<and> (\<forall>i<length dests.
                   map_of COLUMN_MAP (existing_columns (columns df) ! i) = Some (dests ! i)
                 \<and> values_list df (existing_columns (columns df)) ! k ! i
                     = row_get (columns df) (rows df ! k) (existing_columns (columns df) ! i)))"
proof -
  let ?ex = "existing_columns (columns df)"
  let ?dests = "map snd (filter (\<lambda>(s, d). s \<in> set (columns df)) COLUMN_MAP)"
  have len: "length ?ex = length ?dests" by (rule length_existing_columns)
  have a: "destination_columns ?ex = Inr ?dests" by (rule destination_columns_existing)
  have b: "\<forall>hdrs. set hdrs = set (columns df) \<longrightarrow> destination_columns (existing_columns hdrs) = Inr ?dests"
    using a by (auto dest: existing_columns_set)
  have c: "?ex \<noteq> [] \<longrightarrow> query_columns (insert_query ?dests (length ?ex)) = ?dests"
  proof
    assume ne: "?ex \<noteq> []"
    show "query_columns (insert_query ?dests (length ?ex)) = ?dests"
      by (rule query_columns_insert_query [OF existing_nonempty_destinations [OF ne] plain_destinations])
  qed
  have d: "placeholders (insert_query ?dests (length ?ex)) = length ?dests"
    using placeholders_insert_query [OF plain_destinations, of "columns df" "length ?ex"] len by simp
  have e: "length (values_list df ?ex) = length (rows df)" by (simp add: values_list_def)
  have f: "\<forall>k<length (rows df).
               length (values_list df ?ex ! k) = length ?dests
             \<and> (\<forall>i<length ?dests.
                   map_of COLUMN_MAP (?ex ! i) = Some (?dests ! i)
                 \<and> values_list df ?ex ! k ! i = row_get (columns df) (rows df ! k) (?ex ! i))"
    using existing_columns_item [of _ "columns df"] len by (simp add: values_list_def)
  from a b c d e f show ?thesis by blast
qed

section \<open>Aborts of the run\<close>

lemma convert_column_error:
  "convert_column parse name df = Inl e \<Longrightarrow> e = ValueError"
  by (auto simp: convert_column_def getitem_def count_list_0_iff split: if_splits)

lemma convert_timestamps_error:
  "convert_timestamps parse df = Inl e \<Longrightarrow> e = ValueError"
  by (auto simp: convert_timestamps_def split: sum.splits dest: convert_column_error)

lemma load_error:
  "snd (load db_accepts df) = Inl e \<Longrightarrow> e \<in> {NoExpectedColumns, KeyError, IndexError, DatabaseError}"
  by (auto simp: load_def Let_def iloc0_def column_map_item_def destination_columns_existing
           split: if_splits sum.splits list.splits)

lemma load_no_request: "count_list (fst (load db_accepts df)) HttpGet = 0"
  by (auto simp: load_def Let_def provision_def split: if_splits sum.splits)

lemma prepare_ok:
  "status_code r = 200 \<Longrightarrow>
     prepare read_csv parse r =
       (case load_frame read_csv (body r) of Inl e \<Rightarrow> Inl e | Inr df \<Rightarrow> convert_timestamps parse df)"
  by (simp add: prepare_def fetch_def)

lemma prepare_error:
  "status_code r = 200 \<Longrightarrow> prepare read_csv parse r = Inl e \<Longrightarrow> e \<in> {ParserError, ValueError}"
  by (auto simp: prepare_ok load_frame_def split: sum.splits option.splits dest: convert_timestamps_error)

text \<open>
  C7. A response whose status is not 200 ends the run with the fetch error after the one HTTP
  request and nothing else: no connection, no statement. On status 200 the run goes on to read
  the body, and whatever it ends with is not the fetch error. In either case the request is
  made once: there is no retry.
\<close>

theorem fetch_failure_aborts_before_database:
  "(status_code r \<noteq> 200 \<longrightarrow>
      run read_csv parse db_accepts r = ([HttpGet], Inl (FetchFailed (status_code r))))
   \<and> (status_code r = 200 \<longrightarrow>
        (\<forall>s. snd (run read_csv parse db_accepts r) \<noteq> Inl (FetchFailed s))
      \<and> prepare read_csv parse r =
          (case load_frame read_csv (body r) of
             Inl e \<Rightarrow> Inl e
           | Inr df \<Rightarrow> convert_timestamps parse df))
   \<and> count_list (fst (run read_csv parse db_accepts r)) HttpGet = 1"
proof (intro conjI impI allI)
  assume "status_code r \<noteq> 200"
  then show "run read_csv parse db_accepts r = ([HttpGet], Inl (FetchFailed (status_code r)))"
    by (simp add: run_def prepare_def fetch_def)
next
  fix s
  assume ok: "status_code r = 200"
  show "snd (run read_csv parse db_accepts r) \<noteq> Inl (FetchFailed s)"
  proof (cases "prepare read_csv parse r")
    case (Inl e)
    with prepare_error [OF ok Inl] show ?thesis by (auto simp: run_def)
  next
    case (Inr df)
    with load_error [of db_accepts df] show ?thesis by (auto simp: run_def)
  qed
next
  assume "status_code r = 200"
  then show "prepare read_csv parse r =
          (case load_frame read_csv (body r) of
             Inl e \<Rightarrow> Inl e
           | Inr df \<Rightarrow> convert_timestamps parse df)"
    by (rule prepare_ok)
next
  show "count_list (fst (run read_csv parse db_accepts r)) HttpGet = 1"
    by (simp add: run_def load_no_request split: sum.splits)
qed

lemma existing_columns_empty:
  assumes "existing_columns hdrs = []"
  shows "''start'' \<notin> set hdrs \<and> ''end'' \<notin> set hdrs"
proof -
  have "\<forall>k\<in>set (map fst COLUMN_MAP). k \<notin> set hdrs"
    using assms unfolding existing_columns_def filter_empty_conv by simp
  moreover have "''start'' \<in> set (map fst COLUMN_MAP)" "''end'' \<in> set (map fst COLUMN_MAP)"
    by (simp_all add: COLUMN_MAP_def)
  ultimately show ?thesis by blast
qed

text \<open>
  C6. When the response has status 200, the body is read into a frame, and no source column of
  the static mapping is among the cleaned headers, the run ends with the error of line 130:
  what has happened by then is the request, the connection and the three statements of schema
  provisioning (create schema, drop table, create table), and no insert statement has been
  built or sent.
\<close>

theorem no_mapped_column_aborts_before_insert:
  assumes "status_code r = 200"
    and "read_csv (body r) = Some raw"
    and "existing_columns (clean_columns (columns raw)) = []"
  shows "run read_csv parse db_accepts r
           = ([HttpGet, Connect, CreateSchema, DropTable, CreateTable], Inl NoExpectedColumns)"
proof -
  let ?df = "raw\<lparr>columns := clean_columns (columns raw)\<rparr>"
  have "convert_timestamps parse ?df = Inr ?df"
    using existing_columns_empty [OF assms(3)]
    by (simp add: convert_timestamps_def convert_column_def)
  then have "prepare read_csv parse r = Inr ?df"
    using assms(1,2) by (simp add: prepare_ok load_frame_def)
  then show ?thesis
    using assms(3) by (simp add: run_def load_def provision_def)
qed

lemma no_rows_raise:
  assumes "prepare read_csv parse r = Inr df"
    and "existing_columns (columns df) \<noteq> []"
    and "rows df = []"
  shows "run read_csv parse db_accepts r
           = ([HttpGet, Connect, CreateSchema, DropTable, CreateTable], Inl IndexError)"
  using assms
  by (simp add: run_def load_def provision_def iloc0_def destination_columns_existing)

lemma provisioning_not_committed:
  "db_after db0 [HttpGet, Connect, CreateSchema, DropTable, CreateTable] = db0"
  by (simp add: db_after_def)

text \<open>Witness for C7: a response with status 404 and one with status 200.\<close>

theorem fetch_failure_aborts_before_database_witness:
  "run read_plain_csv iso_parser (\<lambda>q vs. True) \<lparr>status_code = 404, body = ''gender''\<rparr>
     = ([HttpGet], Inl (FetchFailed 404))
   \<and> snd (run read_plain_csv iso_parser (\<lambda>q vs. True) \<lparr>status_code = 200, body = ''gender''\<rparr>)
       \<noteq> Inl (FetchFailed 200)
   \<and> count_list (fst (run read_plain_csv iso_parser (\<lambda>q vs. True) \<lparr>status_code = 200, body = ''gender''\<rparr>))
        HttpGet = 1"
  using fetch_failure_aborts_before_database
          [of "\<lparr>status_code = 404, body = ''gender''\<rparr>" read_plain_csv iso_parser "\<lambda>q vs. True"]
        fetch_failure_aborts_before_database
          [of "\<lparr>status_code = 200, body = ''gender''\<rparr>" read_plain_csv iso_parser "\<lambda>q vs. True"]
  by simp

text \<open>Witness for C6: a CSV whose two headers are both outside the mapping.\<close>

theorem no_mapped_column_aborts_before_insert_witness:
  "run read_plain_csv iso_parser (\<lambda>q vs. True)
      \<lparr>status_code = 200, body = ''Name;Favourite Colour'' @ [CHR 0x0A] @ ''Ann;red''\<rparr>
     = ([HttpGet, Connect, CreateSchema, DropTable, CreateTable], Inl NoExpectedColumns)"
proof -
  let ?r = "\<lparr>status_code = 200, body = ''Name;Favourite Colour'' @ [CHR 0x0A] @ ''Ann;red''\<rparr>"
  let ?df0 = "\<lparr>columns = [''Name'', ''Favourite Colour''], rows = [[Str ''Ann'', Str ''red'']]\<rparr>"
  have a: "status_code ?r = 200" by simp
  have b: "read_plain_csv (body ?r) = Some ?df0" by code_simp
  have c: "existing_columns (clean_columns (columns ?df0)) = []" by code_simp
  show ?thesis
    by (rule no_mapped_column_aborts_before_insert
               [where r = ?r and read_csv = read_plain_csv and raw = ?df0, OF a b c])
qed

text \<open>
  C1. The run on a CSV that holds the header line \<open>start;end;age_range;gender\<close> and no data row:
  the preview of line 145 reads \<open>df.iloc[0]\<close> and raises \<open>IndexError\<close>, before the branch of line
  151 that was written for a CSV without rows. Nothing has been committed at that point, so a
  destination table that held a row before the run still holds it afterwards.
\<close>

theorem header_only_csv_raises:
  "run read_plain_csv iso_parser (\<lambda>q vs. True)
      \<lparr>status_code = 200, body = ''start;end;age_range;gender'' @ [CHR 0x0A]\<rparr>
     = ([HttpGet, Connect, CreateSchema, DropTable, CreateTable], Inl IndexError)
   \<and> db_after \<lparr>has_schema = True, relation = Some [(7, [(''gender'', Scalar (Str ''Male''))])], serial = 8\<rparr>
        (fst (run read_plain_csv iso_parser (\<lambda>q vs. True)
               \<lparr>status_code = 200, body = ''start;end;age_range;gender'' @ [CHR 0x0A]\<rparr>))
     = \<lparr>has_schema = True, relation = Some [(7, [(''gender'', Scalar (Str ''Male''))])], serial = 8\<rparr>"
proof -
  let ?r = "\<lparr>status_code = 200, body = ''start;end;age_range;gender'' @ [CHR 0x0A]\<rparr>"
  let ?df = "\<lparr>columns = [''start'', ''end'', ''age_range'', ''gender''], rows = []\<rparr>"
  have p: "prepare read_plain_csv iso_parser ?r = Inr ?df" by code_simp
  have e: "existing_columns (columns ?df) \<noteq> []" by code_simp
  have "rows ?df = []" by simp
  from no_rows_raise [OF p e this]
  show ?thesis by (simp add: provisioning_not_committed)
qed

text \<open>Witness for C10: headers in another order than the mapping declares them.\<close>

theorem insert_statement_order_and_arity_witness:
  "existing_columns [''gender'', ''favourite_colour'', ''start''] = [''start'', ''gender'']
   \<and> query_columns (insert_query [''start_time'', ''gender''] 2) = [''start_time'', ''gender'']
   \<and> placeholders (insert_query [''start_time'', ''gender''] 2) = 2
   \<and> values_list
        \<lparr>columns = [''gender'', ''favourite_colour'', ''start''],
           rows = [[Str ''Female'', Str ''red'', NaT]]\<rparr> [''start'', ''gender'']
       = [[Scalar NaT, Scalar (Str ''Female'')]]"
proof -
  let ?df = "\<lparr>columns = [''gender'', ''favourite_colour'', ''start''],
              rows = [[Str ''Female'', Str ''red'', NaT]]\<rparr>"
  have e: "existing_columns (columns ?df) = [''start'', ''gender'']" by code_simp
  have d: "destination_columns [''start'', ''gender''] = Inr [''start_time'', ''gender'']"
    by code_simp
  have v: "values_list ?df [''start'', ''gender''] = [[Scalar NaT, Scalar (Str ''Female'')]]"
    by code_simp
  have "existing_columns (columns ?df) \<noteq> []" by (simp only: e) simp
  with insert_statement_order_and_arity [of ?df] obtain dests where
    i: "destination_columns (existing_columns (columns ?df)) = Inr dests"
    and q: "query_columns (insert_query dests (length (existing_columns (columns ?df)))) = dests"
    and p: "placeholders (insert_query dests (length (existing_columns (columns ?df)))) = length dests"
    by blast
  from i have dests: "dests = [''start_time'', ''gender'']" unfolding e d by simp
  from q p have "query_columns (insert_query [''start_time'', ''gender''] 2) = [''start_time'', ''gender'']"
    and "placeholders (insert_query [''start_time'', ''gender''] 2) = 2"
    unfolding e dests by (simp_all add: numeral_2_eq_2)
  with e v show ?thesis by simp
qed

section \<open>Timestamp coercion, cell by cell\<close>

lemma length_put_cell: "length (put_cell name new cols row) = length row"
  by (induction name new cols row rule: put_cell.induct) simp_all

lemma nth_put_cell:
  "i < length row \<Longrightarrow>
     put_cell name new cols row ! i
       = (if i < length cols \<and> cols ! i = name then new else row ! i)"
proof (induction name new cols row arbitrary: i rule: put_cell.induct)
  case (1 name new c cs v vs)
  then show ?case by (cases i) simp_all
qed simp_all

lemma count_list_member: "0 < count_list xs x \<longleftrightarrow> x \<in> set xs"
  using count_list_0_iff [of xs x] by auto

lemma lookup_row_absent: "name \<notin> set cols \<Longrightarrow> lookup_row name cols row = []"
  by (induction name cols row rule: lookup_row.induct) auto

lemma cell_of_unique:
  "i < length row \<Longrightarrow> i < length cols \<Longrightarrow> cols ! i = name \<Longrightarrow> count_list cols name \<le> 1 \<Longrightarrow>
     cell_of name cols row = row ! i"
proof (induction name cols row arbitrary: i rule: lookup_row.induct)
  case (1 name c cs v vs)
  show ?case
  proof (cases i)
    case 0
    with 1 show ?thesis by (simp add: cell_of_def)
  next
    case (Suc j)
    with 1 have "name \<in> set cs" by (auto simp: in_set_conv_nth)
    then have "count_list cs name \<ge> 1" using count_list_member [of cs name] by simp
    with 1 have "c \<noteq> name" by (auto split: if_splits)
    with 1 Suc show ?thesis by (simp add: cell_of_def)
  qed
qed simp_all

lemma cell_of_put_other:
  "name \<noteq> other \<Longrightarrow> cell_of name cols (put_cell other new cols row) = cell_of name cols row"
proof -
  assume "name \<noteq> other"
  then have "lookup_row name cols (put_cell other new cols row) = lookup_row name cols row"
    by (induction other new cols row rule: put_cell.induct) simp_all
  then show ?thesis by (simp add: cell_of_def)
qed

lemma map_zip_map: "map h (zip xs (map k xs)) = map (\<lambda>x. h (x, k x)) xs"
  by (induction xs) simp_all

text \<open>The frame after \<open>df[name] = pd.to_datetime(df[name], errors="coerce")\<close>.\<close>

lemma convert_column_present:
  assumes "name \<in> set (columns df)" and "count_list (columns df) name \<le> 1"
  shows "convert_column parse name df
           = Inr (df\<lparr>rows := map (\<lambda>row. put_cell name
                                   (coerce (parse (map (cell_of name (columns df)) (rows df)))
                                      (cell_of name (columns df) row))
                                   (columns df) row) (rows df)\<rparr>)"
proof -
  from assms have "count_list (columns df) name = 1"
    using count_list_member [of "columns df" name] by simp
  with assms(1) show ?thesis
    by (simp add: convert_column_def getitem_def setitem_def to_datetime_def map_zip_map)
qed

lemma convert_column_absent:
  "name \<notin> set (columns df) \<Longrightarrow> convert_column parse name df = Inr df"
  by (simp add: convert_column_def)

lemma convert_column_duplicate:
  "1 < count_list (columns df) name \<Longrightarrow> convert_column parse name df = Inl ValueError"
  using count_list_member [of "columns df" name]
  by (simp add: convert_column_def getitem_def)

lemma convert_column_cells:
  assumes "count_list (columns df) name \<le> 1"
  shows "\<exists>df'. convert_column parse name df = Inr df'
          \<and> columns df' = columns df
          \<and> length (rows df') = length (rows df)
          \<and> (\<forall>other. other \<noteq> name \<longrightarrow>
                map (cell_of other (columns df)) (rows df') = map (cell_of other (columns df)) (rows df))
          \<and> (\<forall>k<length (rows df).
                length (rows df' ! k) = length (rows df ! k)
              \<and> (\<forall>i<length (rows df ! k).
                    rows df' ! k ! i =
                      (if i < length (columns df) \<and> columns df ! i = name
                       then coerce (parse (map (cell_of name (columns df)) (rows df))) (rows df ! k ! i)
                       else rows df ! k ! i)))"
proof (cases "name \<in> set (columns df)")
  case False
  then have "\<And>i. i < length (columns df) \<Longrightarrow> columns df ! i \<noteq> name"
    by (metis nth_mem)
  with False show ?thesis by (auto simp: convert_column_absent)
next
  case True
  show ?thesis
    unfolding convert_column_present [OF True assms]
    using assms
    by (simp add: length_put_cell nth_put_cell cell_of_put_other cell_of_unique)
qed

lemma convert_timestamps_aborts:
  "isl (convert_timestamps parse df)
     \<longleftrightarrow> 1 < count_list (columns df) ''start'' \<or> 1 < count_list (columns df) ''end''"
proof (cases "1 < count_list (columns df) ''start''")
  case True
  then show ?thesis by (simp add: convert_timestamps_def convert_column_duplicate)
next
  case False
  then have s: "count_list (columns df) ''start'' \<le> 1" by simp
  from convert_column_cells [OF s, of parse] obtain df1 where
    c: "convert_column parse ''start'' df = Inr df1" and cols: "columns df1 = columns df"
    by blast
  show ?thesis
  proof (cases "1 < count_list (columns df) ''end''")
    case True
    then show ?thesis using c cols by (simp add: convert_timestamps_def convert_column_duplicate)
  next
    case e: False
    then have "count_list (columns df1) ''end'' \<le> 1" using cols by simp
    from convert_column_cells [OF this, of parse] obtain df2 where
      "convert_column parse ''end'' df1 = Inr df2" by blast
    with c False e show ?thesis by (simp add: convert_timestamps_def)
  qed
qed

lemma convert_timestamps_cells:
  assumes s: "count_list (columns df) ''start'' \<le> 1" and e: "count_list (columns df) ''end'' \<le> 1"
  shows "\<exists>df'. convert_timestamps parse df = Inr df'
          \<and> columns df' = columns df
          \<and> length (rows df') = length (rows df)
          \<and> (\<forall>k<length (rows df).
                length (rows df' ! k) = length (rows df ! k)
              \<and> (\<forall>i<length (rows df ! k).
                    rows df' ! k ! i =
                      (if i < length (columns df) \<and> columns df ! i = ''start''
                       then coerce (parse (map (cell_of ''start'' (columns df)) (rows df))) (rows df ! k ! i)
                       else if i < length (columns df) \<and> columns df ! i = ''end''
                       then coerce (parse (map (cell_of ''end'' (columns df)) (rows df))) (rows df ! k ! i)
                       else rows df ! k ! i)))"
proof -
  from convert_column_cells [OF s, of parse] obtain df1 where
    c1: "convert_column parse ''start'' df = Inr df1"
    and cols1: "columns df1 = columns df"
    and len1: "length (rows df1) = length (rows df)"
    and other1: "\<forall>other. other \<noteq> ''start'' \<longrightarrow>
                map (cell_of other (columns df)) (rows df1) = map (cell_of other (columns df)) (rows df)"
    and cells1: "\<forall>k<length (rows df).
                length (rows df1 ! k) = length (rows df ! k)
              \<and> (\<forall>i<length (rows df ! k).
                    rows df1 ! k ! i =
                      (if i < length (columns df) \<and> columns df ! i = ''start''
                       then coerce (parse (map (cell_of ''start'' (columns df)) (rows df))) (rows df ! k ! i)
                       else rows df ! k ! i))"
    by blast
  from e cols1 have e1: "count_list (columns df1) ''end'' \<le> 1" by simp
  from convert_column_cells [OF e1, of parse] obtain df2 where
    c2: "convert_column parse ''end'' df1 = Inr df2"
    and cols2: "columns df2 = columns df1"
    and len2: "length (rows df2) = length (rows df1)"
    and cells2: "\<forall>k<length (rows df1).
                length (rows df2 ! k) = length (rows df1 ! k)
              \<and> (\<forall>i<length (rows df1 ! k).
                    rows df2 ! k ! i =
                      (if i < length (columns df1) \<and> columns df1 ! i = ''end''
                       then coerce (parse (map (cell_of ''end'' (columns df1)) (rows df1))) (rows df1 ! k ! i)
                       else rows df1 ! k ! i))"
    by blast
  have series: "map (cell_of ''end'' (columns df)) (rows df1) = map (cell_of ''end'' (columns df)) (rows df)"
    using other1 by simp
  have "convert_timestamps parse df = Inr df2"
    using c1 c2 by (simp add: convert_timestamps_def)
  moreover have "columns df2 = columns df" using cols1 cols2 by simp
  moreover have "length (rows df2) = length (rows df)" using len1 len2 by simp
  moreover have "\<forall>k<length (rows df).
                length (rows df2 ! k) = length (rows df ! k)
              \<and> (\<forall>i<length (rows df ! k).
                    rows df2 ! k ! i =
                      (if i < length (columns df) \<and> columns df ! i = ''start''
                       then coerce (parse (map (cell_of ''start'' (columns df)) (rows df))) (rows df ! k ! i)
                       else if i < length (columns df) \<and> columns df ! i = ''end''
                       then coerce (parse (map (cell_of ''end'' (columns df)) (rows df))) (rows df ! k ! i)
                       else rows df ! k ! i))"
  proof (intro allI impI conjI)
    fix k assume k: "k < length (rows df)"
    with cells1 cells2 len1 show "length (rows df2 ! k) = length (rows df ! k)" by simp
    fix i assume i: "i < length (rows df ! k)"
    from cells1 k i have a: "rows df1 ! k ! i =
                      (if i < length (columns df) \<and> columns df ! i = ''start''
                       then coerce (parse (map (cell_of ''start'' (columns df)) (rows df))) (rows df ! k ! i)
                       else rows df ! k ! i)"
      and l: "length (rows df1 ! k) = length (rows df ! k)" by simp_all
    from cells2 k i l len1 have b: "rows df2 ! k ! i =
                      (if i < length (columns df1) \<and> columns df1 ! i = ''end''
                       then coerce (parse (map (cell_of ''end'' (columns df1)) (rows df1))) (rows df1 ! k ! i)
                       else rows df1 ! k ! i)" by simp
    show "rows df2 ! k ! i =
                      (if i < length (columns df) \<and> columns df ! i = ''start''
                       then coerce (parse (map (cell_of ''start'' (columns df)) (rows df))) (rows df ! k ! i)
                       else if i < length (columns df) \<and> columns df ! i = ''end''
                       then coerce (parse (map (cell_of ''end'' (columns df)) (rows df))) (rows df ! k ! i)
                       else rows df ! k ! i)"
      unfolding b cols1 series a by auto
  qed
  ultimately show ?thesis by blast
qed

text \<open>
  The coercion step by itself (lines 63-66). It raises exactly when \<open>start\<close> or \<open>end\<close> occurs
  more than once among the cleaned labels. When each of the two names occurs at most once, it
  returns a frame with the same labels, the same number of rows and the same row lengths, in
  which a cell under \<open>start\<close> or \<open>end\<close> is the timestamp the parser reads from it, or \<open>NaT\<close> when
  the parser reads none, and every other cell is what it was.
\<close>

lemma timestamp_columns_coerced:
  "(isl (convert_timestamps parse df)
      \<longleftrightarrow> 1 < count_list (columns df) ''start'' \<or> 1 < count_list (columns df) ''end'')
   \<and> (count_list (columns df) ''start'' \<le> 1 \<and> count_list (columns df) ''end'' \<le> 1 \<longrightarrow>
        (\<exists>df'. convert_timestamps parse df = Inr df'
          \<and> columns df' = columns df
          \<and> length (rows df') = length (rows df)
          \<and> (\<forall>k<length (rows df).
                length (rows df' ! k) = length (rows df ! k)
              \<and> (\<forall>i<length (rows df ! k).
                    rows df' ! k ! i =
                      (if i < length (columns df) \<and> columns df ! i = ''start''
                       then (case parse (map (cell_of ''start'' (columns df)) (rows df)) (rows df ! k ! i) of
                               Some t \<Rightarrow> Timestamp t
                             | None \<Rightarrow> NaT)
                       else if i < length (columns df) \<and> columns df ! i = ''end''
                       then (case parse (map (cell_of ''end'' (columns df)) (rows df)) (rows df ! k ! i) of
                               Some t \<Rightarrow> Timestamp t
                             | None \<Rightarrow> NaT)
                       else rows df ! k ! i)))))"
  using convert_timestamps_aborts [of parse df] convert_timestamps_cells [of df parse]
  unfolding coerce_def by blast

text \<open>The step on a readable start, an unreadable end, and a column in between.\<close>

lemma timestamp_columns_coerced_example:
  "count_list [''start'', ''gender'', ''end''] ''start'' \<le> 1
   \<and> count_list [''start'', ''gender'', ''end''] ''end'' \<le> 1
   \<and> (\<exists>df'. convert_timestamps iso_parser
                \<lparr>columns = [''start'', ''gender'', ''end''],
                   rows = [[Str ''2023-01-01T10:00:00'', Str ''Female'', Str ''half past ten'']]\<rparr> = Inr df'
          \<and> rows df' ! 0 ! 0 = Timestamp (Datetime 2023 1 1 10 0 0)
          \<and> rows df' ! 0 ! 1 = Str ''Female''
          \<and> rows df' ! 0 ! 2 = NaT)"
proof -
  let ?df = "\<lparr>columns = [''start'', ''gender'', ''end''],
               rows = [[Str ''2023-01-01T10:00:00'', Str ''Female'', Str ''half past ten'']]\<rparr>"
  have s: "count_list (columns ?df) ''start'' \<le> 1" and e: "count_list (columns ?df) ''end'' \<le> 1"
    by simp_all
  have p1: "iso_parser [Str ''2023-01-01T10:00:00''] (Str ''2023-01-01T10:00:00'')
              = Some (Datetime 2023 1 1 10 0 0)"
    by code_simp
  have p2: "iso_parser [Str ''half past ten''] (Str ''half past ten'') = None"
    by code_simp
  from timestamp_columns_coerced [of iso_parser ?df] s e obtain df' where
    r: "convert_timestamps iso_parser ?df = Inr df'"
    and c: "\<forall>k<length (rows ?df).
                length (rows df' ! k) = length (rows ?df ! k)
              \<and> (\<forall>i<length (rows ?df ! k).
                    rows df' ! k ! i =
                      (if i < length (columns ?df) \<and> columns ?df ! i = ''start''
                       then (case iso_parser (map (cell_of ''start'' (columns ?df)) (rows ?df)) (rows ?df ! k ! i) of
                               Some t \<Rightarrow> Timestamp t
                             | None \<Rightarrow> NaT)
                       else if i < length (columns ?df) \<and> columns ?df ! i = ''end''
                       then (case iso_parser (map (cell_of ''end'' (columns ?df)) (rows ?df)) (rows ?df ! k ! i) of
                               Some t \<Rightarrow> Timestamp t
                             | None \<Rightarrow> NaT)
                       else rows ?df ! k ! i))"
    by blast
  have "0 < length (rows ?df)" by simp
  with c have c0: "\<forall>i<length (rows ?df ! 0).
                    rows df' ! 0 ! i =
                      (if i < length (columns ?df) \<and> columns ?df ! i = ''start''
                       then (case iso_parser (map (cell_of ''start'' (columns ?df)) (rows ?df)) (rows ?df ! 0 ! i) of
                               Some t \<Rightarrow> Timestamp t
                             | None \<Rightarrow> NaT)
                       else if i < length (columns ?df) \<and> columns ?df ! i = ''end''
                       then (case iso_parser (map (cell_of ''end'' (columns ?df)) (rows ?df)) (rows ?df ! 0 ! i) of
                               Some t \<Rightarrow> Timestamp t
                             | None \<Rightarrow> NaT)
                       else rows ?df ! 0 ! i)"
    by blast
  have "rows df' ! 0 ! 0 = Timestamp (Datetime 2023 1 1 10 0 0)"
    using c0 [rule_format, of 0] p1 by (simp add: cell_of_def)
  moreover have "rows df' ! 0 ! 1 = Str ''Female''"
    using c0 [rule_format, of 1] by simp
  moreover have "rows df' ! 0 ! 2 = NaT"
    using c0 [rule_format, of 2] p2 by (simp add: cell_of_def)
  ultimately show ?thesis using r by simp
qed

text \<open>
  C4. The run on a CSV whose one row holds \<open>not a date\<close> under \<open>Start\<close>, against a server that
  answers as PostgreSQL does. The value is coerced to \<open>NaT\<close> in the frame (line 64), the tuple of
  line 150 carries that \<open>NaT\<close> to \<open>execute_batch\<close> (line 154), the server refuses it, and the
  run ends with the database's error: nothing is committed, and a table that held a row before
  the run still holds it. The same CSV with a readable value in that place is loaded. So an
  unparseable value does abort the run, where \<open>errors="coerce"\<close> was written to prevent it.
\<close>

theorem unparseable_timestamp_aborts_run:
  "prepare read_plain_csv iso_parser
      \<lparr>status_code = 200, body = ''Start;Gender'' @ [CHR 0x0A] @ ''not a date;Female''\<rparr>
     = Inr \<lparr>columns = [''start'', ''gender''], rows = [[NaT, Str ''Female'']]\<rparr>
   \<and> run read_plain_csv iso_parser postgres_accepts
        \<lparr>status_code = 200, body = ''Start;Gender'' @ [CHR 0x0A] @ ''not a date;Female''\<rparr>
       = ([HttpGet, Connect, CreateSchema, DropTable, CreateTable], Inl DatabaseError)
   \<and> db_after
        \<lparr>has_schema = True, relation = Some [(7, [(''gender'', Scalar (Str ''Other''))])], serial = 8\<rparr>
        (fst (run read_plain_csv iso_parser postgres_accepts
                \<lparr>status_code = 200, body = ''Start;Gender'' @ [CHR 0x0A] @ ''not a date;Female''\<rparr>))
       = \<lparr>has_schema = True, relation = Some [(7, [(''gender'', Scalar (Str ''Other''))])], serial = 8\<rparr>
   \<and> snd (run read_plain_csv iso_parser postgres_accepts
             \<lparr>status_code = 200,
                body = ''Start;Gender'' @ [CHR 0x0A] @ ''2023-01-01T10:00:00;Female''\<rparr>)
       = Inr ()"
  by code_simp

text \<open>
  A second way in which this step ends the run: the headers \<open>Start\<close> and \<open>start\<close> are two
  columns for the reader and one name after cleaning. Both values are readable, yet
  \<open>df["start"]\<close> is a frame, \<open>pd.to_datetime\<close> raises, nothing is coerced and the run ends before
  it connects to the database.
\<close>

lemma duplicate_start_header_aborts_run:
  "clean_columns [''Start'', ''start''] = [''start'', ''start'']
   \<and> convert_timestamps iso_parser
        \<lparr>columns = [''start'', ''start''],
           rows = [[Str ''2023-01-01T10:00:00'', Str ''2023-01-01T10:30:00'']]\<rparr> = Inl ValueError
   \<and> run read_plain_csv iso_parser (\<lambda>q vs. True)
        \<lparr>status_code = 200,
           body = ''Start;start'' @ [CHR 0x0A] @ ''2023-01-01T10:00:00;2023-01-01T10:30:00''\<rparr>
       = ([HttpGet], Inl ValueError)"
  by code_simp

section \<open>What a successful run leaves in the table\<close>








section \<open>The example of the specification\<close>

lemma example_headers_cleaned:
  "clean_columns [''Start'', ''End'', ''Age Range'', ''Gender'']
     = [''start'', ''end'', ''age_range'', ''gender'']"
  by code_simp

lemma example_existing:
  "existing_columns [''start'', ''end'', ''age_range'', ''gender'']
     = [''start'', ''end'', ''age_range'', ''gender'']"
  by code_simp

lemma example_destinations:
  "destination_columns [''start'', ''end'', ''age_range'', ''gender'']
     = Inr [''start_time'', ''end_time'', ''age_range'', ''gender'']"
  by code_simp

lemma example_query_columns:
  "query_columns (insert_query [''start_time'', ''end_time'', ''age_range'', ''gender''] 4)
     = [''start_time'', ''end_time'', ''age_range'', ''gender'']"
  by code_simp

lemma example_converted:
  assumes "parse [Str a] (Str a) = Some t1" and "parse [Str b] (Str b) = Some t2"
  shows "convert_timestamps parse
           \<lparr>columns = [''start'', ''end'', ''age_range'', ''gender''],
              rows = [[Str a, Str b, Str ''18-24'', Str ''Female'']]\<rparr>
         = Inr \<lparr>columns = [''start'', ''end'', ''age_range'', ''gender''],
                 rows = [[Timestamp t1, Timestamp t2, Str ''18-24'', Str ''Female'']]\<rparr>"
  using assms
  by (simp add: convert_timestamps_def convert_column_def getitem_def setitem_def to_datetime_def
        cell_of_def coerce_def)

text \<open>
  C9. The example of the specification. The response has status 200 and the two lines of the
  example as its body; \<open>read_csv\<close> gives the four labels and the one row of four texts; the
  parser reads the two timestamps; the database takes the batch. Then the labels are cleaned to
  \<open>start, end, age_range, gender\<close>, the destination columns are
  \<open>start_time, end_time, age_range, gender\<close>, also when read back from the statement, and the run
  inserts and commits exactly one row: the two timestamps, and \<open>18-24\<close> and \<open>Female\<close> as they
  stand.
\<close>

theorem example_row_is_loaded:
  assumes "status_code r = 200"
    and "body r = ''Start;End;Age Range;Gender'' @ [CHR 0x0A]
                    @ ''2023-01-01T10:00:00;2023-01-01T10:30:00;18-24;Female''"
    and "read_csv (body r)
           = Some \<lparr>columns = [''Start'', ''End'', ''Age Range'', ''Gender''],
                    rows = [[Str ''2023-01-01T10:00:00'', Str ''2023-01-01T10:30:00'',
                             Str ''18-24'', Str ''Female'']]\<rparr>"
    and "parse [Str ''2023-01-01T10:00:00''] (Str ''2023-01-01T10:00:00'') = Some t1"
    and "parse [Str ''2023-01-01T10:30:00''] (Str ''2023-01-01T10:30:00'') = Some t2"
    and "db_accepts (insert_query [''start_time'', ''end_time'', ''age_range'', ''gender''] 4)
           [[Scalar (Timestamp t1), Scalar (Timestamp t2), Scalar (Str ''18-24''), Scalar (Str ''Female'')]]"
  shows "clean_columns [''Start'', ''End'', ''Age Range'', ''Gender'']
           = [''start'', ''end'', ''age_range'', ''gender'']
       \<and> destination_columns (existing_columns [''start'', ''end'', ''age_range'', ''gender''])
           = Inr [''start_time'', ''end_time'', ''age_range'', ''gender'']
       \<and> run read_csv parse db_accepts r
           = ([HttpGet, Connect, CreateSchema, DropTable, CreateTable,
               ExecuteBatch (insert_query [''start_time'', ''end_time'', ''age_range'', ''gender''] 4)
                 [[Scalar (Timestamp t1), Scalar (Timestamp t2),
                   Scalar (Str ''18-24''), Scalar (Str ''Female'')]],
               Commit, CursorClose, ConnectionClose], Inr ())
       \<and> query_columns (insert_query [''start_time'', ''end_time'', ''age_range'', ''gender''] 4)
           = [''start_time'', ''end_time'', ''age_range'', ''gender'']
       \<and> relation (db_after db0 (fst (run read_csv parse db_accepts r)))
           = Some [(1, [(''start_time'', Scalar (Timestamp t1)), (''end_time'', Scalar (Timestamp t2)),
                        (''age_range'', Scalar (Str ''18-24'')), (''gender'', Scalar (Str ''Female''))])]"
proof -
  let ?df = "\<lparr>columns = [''start'', ''end'', ''age_range'', ''gender''],
               rows = [[Timestamp t1, Timestamp t2, Str ''18-24'', Str ''Female'']]\<rparr>"
  let ?dests = "[''start_time'', ''end_time'', ''age_range'', ''gender'']"
  let ?vals = "[[Scalar (Timestamp t1), Scalar (Timestamp t2), Scalar (Str ''18-24''), Scalar (Str ''Female'')]]"
  have p: "prepare read_csv parse r = Inr ?df"
    using assms(1,3) example_converted [where parse = parse, OF assms(4,5)]
    by (simp add: prepare_ok load_frame_def example_headers_cleaned)
  have v: "values_list ?df [''start'', ''end'', ''age_range'', ''gender''] = ?vals"
    by (simp add: values_list_def row_get_def)
  have l: "load db_accepts ?df
             = (provision @ [ExecuteBatch (insert_query ?dests 4) ?vals, Commit, CursorClose, ConnectionClose],
                Inr ())"
    using assms(6)
    by (simp add: load_def Let_def example_existing example_destinations iloc0_def v
               eval_nat_numeral
             del: destination_columns.simps)
  have run: "run read_csv parse db_accepts r
           = ([HttpGet, Connect, CreateSchema, DropTable, CreateTable,
               ExecuteBatch (insert_query ?dests 4) ?vals,
               Commit, CursorClose, ConnectionClose], Inr ())"
    by (simp add: run_def p l provision_def)
  have db: "relation (db_after db0 (fst (run read_csv parse db_accepts r)))
           = Some [(1, [(''start_time'', Scalar (Timestamp t1)), (''end_time'', Scalar (Timestamp t2)),
                        (''age_range'', Scalar (Str ''18-24'')), (''gender'', Scalar (Str ''Female''))])]"
    unfolding run
    by (simp add: db_after_def insert_rows_def example_query_columns)
  have dests: "destination_columns (existing_columns [''start'', ''end'', ''age_range'', ''gender''])
                 = Inr ?dests"
    by (simp only: example_existing example_destinations)
  from example_headers_cleaned dests run example_query_columns db
  show ?thesis by (intro conjI)
qed

text \<open>Witness for C9: the example, with the plain reader and the ISO parser.\<close>

theorem example_row_is_loaded_witness:
  "run read_plain_csv iso_parser (\<lambda>q vs. True)
      \<lparr>status_code = 200,
         body = ''Start;End;Age Range;Gender'' @ [CHR 0x0A]
                  @ ''2023-01-01T10:00:00;2023-01-01T10:30:00;18-24;Female''\<rparr>
     = ([HttpGet, Connect, CreateSchema, DropTable, CreateTable,
         ExecuteBatch (insert_query [''start_time'', ''end_time'', ''age_range'', ''gender''] 4)
           [[Scalar (Timestamp (Datetime 2023 1 1 10 0 0)), Scalar (Timestamp (Datetime 2023 1 1 10 30 0)),
             Scalar (Str ''18-24''), Scalar (Str ''Female'')]],
         Commit, CursorClose, ConnectionClose], Inr ())
   \<and> relation
        (db_after \<lparr>has_schema = False, relation = None, serial = 0\<rparr>
           (fst (run read_plain_csv iso_parser (\<lambda>q vs. True)
                   \<lparr>status_code = 200,
                      body = ''Start;End;Age Range;Gender'' @ [CHR 0x0A]
                               @ ''2023-01-01T10:00:00;2023-01-01T10:30:00;18-24;Female''\<rparr>)))
     = Some [(1, [(''start_time'', Scalar (Timestamp (Datetime 2023 1 1 10 0 0))),
                  (''end_time'', Scalar (Timestamp (Datetime 2023 1 1 10 30 0))),
                  (''age_range'', Scalar (Str ''18-24'')), (''gender'', Scalar (Str ''Female''))])]"
proof -
  let ?r = "\<lparr>status_code = 200,
         body = ''Start;End;Age Range;Gender'' @ [CHR 0x0A]
                  @ ''2023-01-01T10:00:00;2023-01-01T10:30:00;18-24;Female''\<rparr>"
  have a: "status_code ?r = 200" by simp
  have b: "body ?r = ''Start;End;Age Range;Gender'' @ [CHR 0x0A]
                    @ ''2023-01-01T10:00:00;2023-01-01T10:30:00;18-24;Female''" by simp
  have c: "read_plain_csv (body ?r)
           = Some \<lparr>columns = [''Start'', ''End'', ''Age Range'', ''Gender''],
                    rows = [[Str ''2023-01-01T10:00:00'', Str ''2023-01-01T10:30:00'',
                             Str ''18-24'', Str ''Female'']]\<rparr>" by code_simp
  have d: "iso_parser [Str ''2023-01-01T10:00:00''] (Str ''2023-01-01T10:00:00'')
             = Some (Datetime 2023 1 1 10 0 0)" by code_simp
  have e: "iso_parser [Str ''2023-01-01T10:30:00''] (Str ''2023-01-01T10:30:00'')
             = Some (Datetime 2023 1 1 10 30 0)" by code_simp
  have f: "(\<lambda>q vs. True) (insert_query [''start_time'', ''end_time'', ''age_range'', ''gender''] 4)
           [[Scalar (Timestamp (Datetime 2023 1 1 10 0 0)), Scalar (Timestamp (Datetime 2023 1 1 10 30 0)),
             Scalar (Str ''18-24''), Scalar (Str ''Female'')]]" by simp
  from example_row_is_loaded [where r = ?r and read_csv = read_plain_csv and parse = iso_parser
         and db_accepts = "\<lambda>q vs. True", OF a b c d e f]
  show ?thesis by blast
qed

end
